theory Spec2Isabelle
  imports Complex_Main
begin

section \<open>Koch curve and Koch snowflake (koch.py)\<close>

text \<open>
  The script builds the vertices of the Koch curve and of the Koch snowflake by
  repeated subdivision of a polyline and hands their coordinates to the plotting
  library. A point is a vector of two numbers; numpy's floating-point numbers are
  read as real numbers here. The statements below are about the expressions the code
  evaluates and about the shape of the lists it builds; none of them measures a
  distance between computed points, which rounding would change.
\<close>

subsection \<open>Points and the vector operations used by \<open>third\<close>\<close>

type_synonym point = "real \<times> real"

text \<open>Componentwise \<open>+\<close>, \<open>-\<close>, scalar \<open>*\<close> and \<open>/\<close> of numpy arrays of shape (2,).\<close>

definition vadd :: "point \<Rightarrow> point \<Rightarrow> point" where
  "vadd u v = (fst u + fst v, snd u + snd v)"

definition vsub :: "point \<Rightarrow> point \<Rightarrow> point" where
  "vsub u v = (fst u - fst v, snd u - snd v)"

definition smul :: "real \<Rightarrow> point \<Rightarrow> point" where
  "smul c v = (c * fst v, c * snd v)"

definition vdiv :: "point \<Rightarrow> real \<Rightarrow> point" where
  "vdiv v c = (fst v / c, snd v / c)"

text \<open>\<open>R.dot(v)\<close> for the matrix \<open>R = [[0,-1],[1,0]]\<close>: row times column.\<close>

definition R_dot :: "point \<Rightarrow> point" where
  "R_dot v = (0 * fst v + (- 1) * snd v, 1 * fst v + 0 * snd v)"

subsection \<open>The subdivider \<open>third\<close>\<close>

definition third :: "point \<Rightarrow> point \<Rightarrow> point list" where
  "third a b =
     (let x = a; y = b in
      [x,
       vadd (smul (2 / 3) x) (smul (1 / 3) y),
       vadd (vdiv (vadd x y) 2) (smul (sqrt 3 / 6) (R_dot (vsub y x))),
       vadd (smul (1 / 3) x) (smul (2 / 3) y),
       y])"

subsection \<open>The coordinate extractor \<open>conver\<close>\<close>

text \<open>
  The loop runs over \<open>range(len(L))\<close> and appends \<open>L[i][0]\<close> and \<open>L[i][1]\<close> to the
  two accumulators; the result is the list of the two accumulators.
\<close>

definition conver :: "point list \<Rightarrow> real list list" where
  "conver L =
     (let (xCoord, yCoord) =
            fold (\<lambda>i (xCoord, yCoord). (xCoord @ [fst (L ! i)], yCoord @ [snd (L ! i)]))
                 [0..<length L] ([], [])
      in [xCoord, yCoord])"

subsection \<open>The curve builders \<open>koch\<close> and \<open>flake\<close>\<close>

text \<open>
  The inner loop is the same in both functions: for \<open>s\<close> in \<open>range(0, l-1)\<close> with
  \<open>l = len(L)\<close> it takes \<open>third(L[s], L[s+1])\<close>, deletes its last element and
  appends the rest to \<open>K\<close>. For an empty \<open>L\<close> the range \<open>range(0, -1)\<close> is empty, as
  \<open>[0..<0 - 1]\<close> is; every index the loop reads is in range.
\<close>

definition segment_loop :: "point list \<Rightarrow> point list" where
  "segment_loop L =
     fold (\<lambda>s K. let t = third (L ! s) (L ! (s + 1)) in K @ butlast t)
          [0..<length L - 1] []"

text \<open>One pass of the outer loop: the inner loop, then the literal closing point.\<close>

definition koch_pass :: "point list \<Rightarrow> point list" where
  "koch_pass L = segment_loop L @ [(3, 0)]"

definition flake_pass :: "point list \<Rightarrow> point list" where
  "flake_pass L = segment_loop L @ [(0, 0)]"

text \<open>
  The polyline \<open>L\<close> after the outer loop \<open>for i in range(0, n)\<close>. The generation
  count is a Python integer; for a negative one the range is empty.
\<close>

definition koch_polyline :: "int \<Rightarrow> point list" where
  "koch_polyline n = fold (\<lambda>i L. koch_pass L) [0..<nat n] [(0, 0), (3, 0)]"

definition flake_polyline :: "int \<Rightarrow> point list" where
  "flake_polyline n =
     fold (\<lambda>i L. flake_pass L) [0..<nat n] [(0, 0), (3, 0), (1.5, - 3 * sqrt 3 / 2), (0, 0)]"

text \<open>
  What a call does in the end: it sets the axes and plots the two coordinate lists.
  The script has no \<open>raise\<close> and no check of \<open>n\<close>; \<open>DomainError\<close> is the value a
  rejection of the argument would be.
\<close>

datatype error = DomainError

record plot =
  xlim :: "real \<times> real"
  ylim :: "real \<times> real"
  axis :: string
  xdata :: "real list"
  ydata :: "real list"

definition koch :: "int \<Rightarrow> error + plot" where
  "koch n =
     (let L = koch_polyline n in
      Inr \<lparr>xlim = (0, 3), ylim = (0, 3), axis = ''equal'',
           xdata = conver L ! 0, ydata = conver L ! 1\<rparr>)"

definition flake :: "int \<Rightarrow> error + plot" where
  "flake n =
     (let L = flake_polyline n in
      Inr \<lparr>xlim = (- 3, 3), ylim = (- 3, 3), axis = ''equal'',
           xdata = conver L ! 0, ydata = conver L ! 1\<rparr>)"

section \<open>Auxiliary facts\<close>

lemma fold_append_concat:
  "fold (\<lambda>s K. K @ f s) xs acc = acc @ concat (map f xs)"
  by (induction xs arbitrary: acc) simp_all

lemma length_third: "length (third a b) = 5"
  by (simp add: third_def)

lemma butlast_third: "butlast (third a b) = take 4 (third a b)"
  by (simp add: third_def)

lemma segment_loop_concat:
  "segment_loop L =
     concat (map (\<lambda>s. take 4 (third (L ! s) (L ! (s + 1)))) [0..<length L - 1])"
  unfolding segment_loop_def Let_def butlast_third
  by (simp add: fold_append_concat)

lemma length_concat_uniform:
  "(\<And>x. length (f x) = m) \<Longrightarrow> length (concat (map f xs)) = m * length xs"
  by (induction xs) simp_all

lemma nth_concat_uniform:
  "(\<And>x. length (f x) = m) \<Longrightarrow> k < length xs \<Longrightarrow> j < m \<Longrightarrow>
     concat (map f xs) ! (m * k + j) = f (xs ! k) ! j"
proof (induction xs arbitrary: k)
  case Nil
  then show ?case by simp
next
  case (Cons x xs)
  show ?case
  proof (cases k)
    case 0
    with Cons.prems show ?thesis by (simp add: nth_append)
  next
    case (Suc k')
    with Cons.prems have "k' < length xs" by simp
    from Cons.IH [OF Cons.prems(1) this Cons.prems(3)]
    have "concat (map f xs) ! (m * k' + j) = f (xs ! k') ! j" .
    moreover have "m * k + j = length (f x) + (m * k' + j)"
      using Suc Cons.prems(1) by simp
    ultimately show ?thesis
      using Suc by (simp add: nth_append)
  qed
qed

lemma length_segment_loop: "length (segment_loop L) = 4 * (length L - 1)"
  unfolding segment_loop_concat
  by (subst length_concat_uniform [where m = 4]) (simp_all add: length_third)

lemma nth_segment_loop:
  assumes "k < length L - 1" and "j < 4"
  shows "segment_loop L ! (4 * k + j) = third (L ! k) (L ! (k + 1)) ! j"
proof -
  have "concat (map (\<lambda>s. take 4 (third (L ! s) (L ! (s + 1)))) [0..<length L - 1]) ! (4 * k + j)
        = take 4 (third (L ! ([0..<length L - 1] ! k)) (L ! ([0..<length L - 1] ! k + 1))) ! j"
    by (rule nth_concat_uniform) (use assms in \<open>simp_all add: length_third\<close>)
  with assms show ?thesis
    by (simp add: segment_loop_concat)
qed

subsection \<open>The outer loop as iteration of a pass\<close>

lemma fold_const_funpow: "fold (\<lambda>i. f) [0..<k] B = (f ^^ k) B"
  by (induction k) simp_all

lemma koch_polyline_funpow: "koch_polyline n = (koch_pass ^^ nat n) [(0, 0), (3, 0)]"
  by (simp add: koch_polyline_def fold_const_funpow)

lemma flake_polyline_funpow:
  "flake_polyline n = (flake_pass ^^ nat n) [(0, 0), (3, 0), (1.5, - 3 * sqrt 3 / 2), (0, 0)]"
  by (simp add: flake_polyline_def fold_const_funpow)

lemma koch_polyline_Suc: "0 \<le> n \<Longrightarrow> koch_polyline (n + 1) = koch_pass (koch_polyline n)"
  by (simp add: koch_polyline_funpow nat_add_distrib)

lemma flake_polyline_Suc: "0 \<le> n \<Longrightarrow> flake_polyline (n + 1) = flake_pass (flake_polyline n)"
  by (simp add: flake_polyline_funpow nat_add_distrib)

lemma length_closed_pass:
  "length (segment_loop L @ [c]) = 4 * (length L - 1) + 1"
  by (simp add: length_segment_loop)

lemma length_funpow_pass:
  fixes f :: "'a list \<Rightarrow> 'a list"
  assumes "\<And>L. length (f L) = 4 * (length L - 1) + 1" and "1 \<le> length B"
  shows "length ((f ^^ k) B) = (length B - 1) * 4 ^ k + 1"
proof (induction k)
  case 0
  from assms(2) show ?case by (cases B) simp_all
next
  case (Suc k)
  have "length ((f ^^ Suc k) B) = 4 * (length ((f ^^ k) B) - 1) + 1"
    by (simp add: assms(1))
  with Suc show ?case by (simp add: mult_ac)
qed

lemma third_0: "third a b ! 0 = a"
  by (simp add: third_def)

lemma nth_closed_pass:
  assumes "i < length L"
  shows "(segment_loop L @ [c]) ! (4 * i) = (if i = length L - 1 then c else L ! i)"
proof (cases "i = length L - 1")
  case True
  then show ?thesis
    by (simp add: nth_append length_segment_loop)
next
  case False
  with assms have i: "i < length L - 1" by simp
  then have "4 * i < length (segment_loop L)"
    by (simp add: length_segment_loop)
  moreover have "segment_loop L ! (4 * i + 0) = third (L ! i) (L ! (i + 1)) ! 0"
    using i by (rule nth_segment_loop) simp
  ultimately show ?thesis
    using False by (simp add: nth_append third_0)
qed

lemma length_koch_pass: "length (koch_pass L) = 4 * (length L - 1) + 1"
  unfolding koch_pass_def by (rule length_closed_pass)

lemma length_flake_pass: "length (flake_pass L) = 4 * (length L - 1) + 1"
  unfolding flake_pass_def by (rule length_closed_pass)

lemma nth_koch_pass:
  "i < length L \<Longrightarrow> koch_pass L ! (4 * i) = (if i = length L - 1 then (3, 0) else L ! i)"
  unfolding koch_pass_def by (rule nth_closed_pass)

lemma nth_flake_pass:
  "i < length L \<Longrightarrow> flake_pass L ! (4 * i) = (if i = length L - 1 then (0, 0) else L ! i)"
  unfolding flake_pass_def by (rule nth_closed_pass)

lemma koch_invariant:
  "2 \<le> length (koch_polyline n) \<and> koch_polyline n ! 0 = (0, 0) \<and> last (koch_polyline n) = (3, 0)"
proof -
  have "2 \<le> length ((koch_pass ^^ k) [(0, 0), (3, 0)])
        \<and> (koch_pass ^^ k) [(0, 0), (3, 0)] ! 0 = (0, 0)
        \<and> last ((koch_pass ^^ k) [(0, 0), (3, 0)]) = (3, 0)" for k
  proof (induction k)
    case 0
    show ?case by simp
  next
    case (Suc k)
    let ?L = "(koch_pass ^^ k) [(0, 0), (3, 0)]"
    from Suc have len: "2 \<le> length ?L" and first: "?L ! 0 = (0, 0)" by simp_all
    have "length (koch_pass ?L) = 4 * (length ?L - 1) + 1"
      by (rule length_koch_pass)
    with len have "2 \<le> length (koch_pass ?L)" by simp
    moreover have "koch_pass ?L ! (4 * 0) = (if 0 = length ?L - 1 then (3, 0) else ?L ! 0)"
      by (rule nth_koch_pass) (use len in linarith)
    with len first have "koch_pass ?L ! 0 = (0, 0)" by simp
    moreover have "last (koch_pass ?L) = (3, 0)"
      by (simp add: koch_pass_def)
    ultimately show ?case by simp
  qed
  then show ?thesis
    by (simp add: koch_polyline_funpow)
qed

lemma flake_invariant:
  "2 \<le> length (flake_polyline n) \<and> flake_polyline n ! 0 = (0, 0)
   \<and> last (flake_polyline n) = (0, 0)"
proof -
  let ?B = "[(0, 0), (3, 0), (1.5, - 3 * sqrt 3 / 2), (0, 0)] :: point list"
  have "2 \<le> length ((flake_pass ^^ k) ?B)
        \<and> (flake_pass ^^ k) ?B ! 0 = (0, 0)
        \<and> last ((flake_pass ^^ k) ?B) = (0, 0)" for k
  proof (induction k)
    case 0
    show ?case by simp
  next
    case (Suc k)
    let ?L = "(flake_pass ^^ k) ?B"
    from Suc have len: "2 \<le> length ?L" and first: "?L ! 0 = (0, 0)" by simp_all
    have "length (flake_pass ?L) = 4 * (length ?L - 1) + 1"
      by (rule length_flake_pass)
    with len have "2 \<le> length (flake_pass ?L)" by simp
    moreover have "flake_pass ?L ! (4 * 0) = (if 0 = length ?L - 1 then (0, 0) else ?L ! 0)"
      by (rule nth_flake_pass) (use len in linarith)
    with len first have "flake_pass ?L ! 0 = (0, 0)" by simp
    moreover have "last (flake_pass ?L) = (0, 0)"
      by (simp add: flake_pass_def)
    ultimately show ?case by simp
  qed
  then show ?thesis
    by (simp add: flake_polyline_funpow)
qed

subsection \<open>The coordinate extractor as two maps\<close>

lemma fold_conver:
  "fold (\<lambda>i (xCoord, yCoord). (xCoord @ [f i], yCoord @ [g i])) js acc =
     (fst acc @ map f js, snd acc @ map g js)"
  by (induction js arbitrary: acc) (simp_all add: case_prod_unfold)

lemma conver_maps: "conver L = [map fst L, map snd L]"
proof -
  have "map (\<lambda>i. fst (L ! i)) [0..<length L] = map fst L"
    by (rule nth_equalityI) simp_all
  moreover have "map (\<lambda>i. snd (L ! i)) [0..<length L] = map snd L"
    by (rule nth_equalityI) simp_all
  ultimately show ?thesis
    by (simp add: conver_def fold_conver)
qed

section \<open>The claims\<close>

text \<open>
  Claim C1. For all points \<open>a = (ax, ay)\<close> and \<open>b = (bx, by)\<close>, \<open>third a b\<close> is the list
  of the five points \<open>a\<close>, \<open>(2/3)a + (1/3)b\<close>, \<open>(a+b)/2 + (sqrt 3/6) rot (b-a)\<close>,
  \<open>(1/3)a + (2/3)b\<close> and \<open>b\<close>, written out by coordinates; the rotation \<open>R.dot\<close>
  sends \<open>(dx, dy)\<close> to \<open>(-dy, dx)\<close>; and \<open>third (0,0) (1,0)\<close> is
  \<open>[(0,0), (1/3,0), (0.5, sqrt 3/6), (2/3,0), (1,0)]\<close>.
\<close>

theorem third_points:
  "third (ax, ay) (bx, by) =
     [(ax, ay),
      (2 / 3 * ax + 1 / 3 * bx, 2 / 3 * ay + 1 / 3 * by),
      ((ax + bx) / 2 + sqrt 3 / 6 * (- (by - ay)), (ay + by) / 2 + sqrt 3 / 6 * (bx - ax)),
      (1 / 3 * ax + 2 / 3 * bx, 1 / 3 * ay + 2 / 3 * by),
      (bx, by)]
   \<and> R_dot (dx, dy) = (- dy, dx)
   \<and> third (0, 0) (1, 0) = [(0, 0), (1 / 3, 0), (0.5, sqrt 3 / 6), (2 / 3, 0), (1, 0)]"
  by (simp add: third_def vadd_def vsub_def smul_def vdiv_def R_dot_def)

text \<open>
  Claim C2. One pass of the outer loop over a polyline \<open>P\<close> yields, for each pair
  \<open>P[k], P[k+1]\<close> in order, the first four points of \<open>third (P[k]) (P[k+1])\<close>, and then
  one closing point (the literal \<open>(3,0)\<close> in \<open>koch\<close>, \<open>(0,0)\<close> in \<open>flake\<close>). This holds
  for every \<open>P\<close>, so in particular for those with at least two points. One generation
  of \<open>koch\<close> gives the five points \<open>(0,0), (1,0), (1.5, sqrt 3/2), (2,0), (3,0)\<close>.
\<close>

theorem one_pass:
  "koch_pass P = concat (map (\<lambda>k. take 4 (third (P ! k) (P ! (k + 1)))) [0..<length P - 1]) @ [(3, 0)]
   \<and> flake_pass P = concat (map (\<lambda>k. take 4 (third (P ! k) (P ! (k + 1)))) [0..<length P - 1]) @ [(0, 0)]
   \<and> koch_polyline 1 = [(0, 0), (1, 0), (1.5, sqrt 3 / 2), (2, 0), (3, 0)]"
proof -
  have "koch_polyline 1 = koch_pass [(0, 0), (3, 0)]"
    by (simp add: koch_polyline_def)
  also have "\<dots> = [(0, 0), (1, 0), (1.5, sqrt 3 / 2), (2, 0), (3, 0)]"
    by (simp add: koch_pass_def segment_loop_def third_def vadd_def vsub_def smul_def vdiv_def R_dot_def)
  finally show ?thesis
    by (simp add: koch_pass_def flake_pass_def segment_loop_concat)
qed

text \<open>
  Claim C3. For every generation count \<open>n \<ge> 0\<close>, the polyline of \<open>koch n\<close> has
  \<open>1 * 4^n + 1\<close> points and the polyline of \<open>flake n\<close> has \<open>3 * 4^n + 1\<close> points, that is
  \<open>L * 4^n\<close> segments from a base of \<open>L\<close> segments.
\<close>

theorem segment_count:
  "0 \<le> n \<Longrightarrow>
     length (koch_polyline n) = 1 * 4 ^ nat n + 1 \<and> length (flake_polyline n) = 3 * 4 ^ nat n + 1"
proof -
  have "length ((koch_pass ^^ nat n) [(0, 0), (3, 0)]) = (length [(0, 0), (3, 0) :: point] - 1) * 4 ^ nat n + 1"
    by (rule length_funpow_pass) (simp_all add: length_koch_pass)
  moreover have "length ((flake_pass ^^ nat n) [(0, 0), (3, 0), (1.5, - 3 * sqrt 3 / 2), (0, 0)])
      = (length [(0, 0), (3, 0), (1.5, - 3 * sqrt 3 / 2), (0, 0) :: point] - 1) * 4 ^ nat n + 1"
    by (rule length_funpow_pass) (simp_all add: length_flake_pass)
  ultimately show ?thesis
    by (simp add: koch_polyline_funpow flake_polyline_funpow)
qed

text \<open>Two generations: 17 points for the curve, 49 for the snowflake.\<close>

theorem segment_count_witness:
  "(0::int) \<le> 2 \<and> length (koch_polyline 2) = 17 \<and> length (flake_polyline 2) = 49"
  using segment_count [of 2] by simp

text \<open>
  Claim C4. For every generation count \<open>n \<ge> 0\<close>, the polyline of \<open>koch n\<close> starts at
  \<open>(0,0)\<close> and ends at \<open>(3,0)\<close>, the first and last points of the base polyline.
\<close>

theorem koch_endpoints:
  "0 \<le> n \<Longrightarrow> koch_polyline n \<noteq> [] \<and> hd (koch_polyline n) = (0, 0) \<and> last (koch_polyline n) = (3, 0)
     \<and> hd (koch_polyline n) = hd (koch_polyline 0) \<and> last (koch_polyline n) = last (koch_polyline 0)"
proof -
  from koch_invariant [of n] have "koch_polyline n \<noteq> []" by auto
  with koch_invariant [of n] show ?thesis
    by (simp add: hd_conv_nth koch_polyline_def)
qed

text \<open>The endpoints after one generation.\<close>

theorem koch_endpoints_witness:
  "(0::int) \<le> 1 \<and> hd (koch_polyline 1) = (0, 0) \<and> last (koch_polyline 1) = (3, 0)"
  using koch_endpoints [of 1] by simp

text \<open>
  Claim C5. For every generation count \<open>n \<ge> 0\<close>, the polyline of \<open>flake n\<close> is closed:
  its first point equals its last point, and both are the base's starting point \<open>(0,0)\<close>.
\<close>

theorem flake_closed:
  "0 \<le> n \<Longrightarrow> flake_polyline n \<noteq> [] \<and> hd (flake_polyline n) = last (flake_polyline n)
     \<and> hd (flake_polyline n) = (0, 0)"
proof -
  from flake_invariant [of n] have "flake_polyline n \<noteq> []" by auto
  with flake_invariant [of n] show ?thesis
    by (simp add: hd_conv_nth)
qed

text \<open>The snowflake after one generation is closed.\<close>

theorem flake_closed_witness:
  "(0::int) \<le> 1 \<and> hd (flake_polyline 1) = last (flake_polyline 1) \<and> hd (flake_polyline 1) = (0, 0)"
proof -
  have h: "(0::int) \<le> 1" by simp
  from flake_closed [OF h] h show ?thesis by blast
qed

text \<open>
  Claim C6 reads: for every negative generation count the builders reject the input
  with a domain error. They do not: at \<open>n = -1\<close> both calls complete, and \<open>koch\<close> plots
  the base segment.
\<close>

theorem negative_count_not_rejected:
  "\<not> isl (koch (- 1)) \<and> \<not> isl (flake (- 1))
   \<and> koch (- 1) = Inr \<lparr>xlim = (0, 3), ylim = (0, 3), axis = ''equal'', xdata = [0, 3], ydata = [0, 0]\<rparr>"
  by (simp add: koch_def flake_def koch_polyline_def conver_maps Let_def)

text \<open>
  Claim C6, as the script behaves: for every negative generation count \<open>n\<close> no error is
  raised; the outer loop \<open>range(0, n)\<close> is empty, the polyline is the base polyline, and
  the call does what the call with \<open>n = 0\<close> does.
\<close>

theorem negative_count_noop:
  "n < 0 \<Longrightarrow>
     koch_polyline n = [(0, 0), (3, 0)]
     \<and> flake_polyline n = [(0, 0), (3, 0), (1.5, - 3 * sqrt 3 / 2), (0, 0)]
     \<and> koch n = koch 0 \<and> flake n = flake 0 \<and> \<not> isl (koch n) \<and> \<not> isl (flake n)"
  by (simp add: koch_def flake_def koch_polyline_def flake_polyline_def Let_def)

text \<open>The generation count \<open>-3\<close>.\<close>

theorem negative_count_noop_witness:
  "(- 3 :: int) < 0 \<and> koch_polyline (- 3) = [(0, 0), (3, 0)] \<and> koch (- 3) = koch 0 \<and> \<not> isl (flake (- 3))"
proof -
  have h: "(- 3 :: int) < 0" by simp
  from negative_count_noop [OF h] h show ?thesis by blast
qed

text \<open>
  Claim C7. With generation count 0 the polyline is the base polyline unchanged:
  \<open>[(0,0), (3,0)]\<close> for \<open>koch\<close> and \<open>[(0,0), (3,0), (1.5, -3 sqrt 3/2), (0,0)]\<close> for
  \<open>flake\<close>.
\<close>

theorem base_case:
  "koch_polyline 0 = [(0, 0), (3, 0)]
   \<and> flake_polyline 0 = [(0, 0), (3, 0), (1.5, - 3 * sqrt 3 / 2), (0, 0)]"
  by (simp add: koch_polyline_def flake_polyline_def)

text \<open>
  Claim C9. For every polyline \<open>P\<close>, \<open>conver P\<close> is a list of two sequences, each as long
  as \<open>P\<close>; at every index \<open>i\<close> the first holds the x coordinate of \<open>P[i]\<close> and the second
  its y coordinate, unchanged and in order.
\<close>

theorem conver_coordinates:
  "length (conver P) = 2
   \<and> length (conver P ! 0) = length P \<and> length (conver P ! 1) = length P
   \<and> (\<forall>i < length P. conver P ! 0 ! i = fst (P ! i) \<and> conver P ! 1 ! i = snd (P ! i))"
  by (simp add: conver_maps)

text \<open>The points \<open>[1,7], [2,8], [3,9]\<close> at index 1.\<close>

theorem conver_coordinates_witness:
  "(1::nat) < length [(1, 7), (2, 8), (3, 9) :: point]
   \<and> conver [(1, 7), (2, 8), (3, 9)] ! 0 ! 1 = 2 \<and> conver [(1, 7), (2, 8), (3, 9)] ! 1 ! 1 = 8"
  using conver_coordinates [of "[(1, 7), (2, 8), (3, 9)]"] by simp

text \<open>
  Claim C10. For every generation \<open>n \<ge> 0\<close> of \<open>koch\<close> and of \<open>flake\<close>, the point at index
  \<open>i\<close> of generation \<open>n\<close> is the point at index \<open>4 * i\<close> of generation \<open>n + 1\<close>.
\<close>

theorem generations_refine:
  "0 \<le> n \<Longrightarrow>
     (\<forall>i < length (koch_polyline n). koch_polyline (n + 1) ! (4 * i) = koch_polyline n ! i)
     \<and> (\<forall>i < length (flake_polyline n). flake_polyline (n + 1) ! (4 * i) = flake_polyline n ! i)"
proof (intro conjI allI impI)
  fix i
  assume n: "0 \<le> n" and i: "i < length (koch_polyline n)"
  let ?L = "koch_polyline n"
  from i have ne: "?L \<noteq> []" by auto
  have "koch_pass ?L ! (4 * i) = (if i = length ?L - 1 then (3, 0) else ?L ! i)"
    using i by (rule nth_koch_pass)
  moreover have "?L ! (length ?L - 1) = (3, 0)"
    using koch_invariant [of n] ne by (simp add: last_conv_nth)
  ultimately show "koch_polyline (n + 1) ! (4 * i) = ?L ! i"
    using n by (simp add: koch_polyline_Suc)
next
  fix i
  assume n: "0 \<le> n" and i: "i < length (flake_polyline n)"
  let ?L = "flake_polyline n"
  from i have ne: "?L \<noteq> []" by auto
  have "flake_pass ?L ! (4 * i) = (if i = length ?L - 1 then (0, 0) else ?L ! i)"
    using i by (rule nth_flake_pass)
  moreover have "?L ! (length ?L - 1) = (0, 0)"
    using flake_invariant [of n] ne by (simp add: last_conv_nth)
  ultimately show "flake_polyline (n + 1) ! (4 * i) = ?L ! i"
    using n by (simp add: flake_polyline_Suc)
qed

text \<open>From the base polylines to the first generation, at indices 1 and 2.\<close>

theorem generations_refine_witness:
  "(0::int) \<le> 0 \<and> (1::nat) < length (koch_polyline 0) \<and> koch_polyline (0 + 1) ! (4 * 1) = koch_polyline 0 ! 1
   \<and> (2::nat) < length (flake_polyline 0) \<and> flake_polyline (0 + 1) ! (4 * 2) = flake_polyline 0 ! 2"
proof -
  have k: "koch_polyline 0 = [(0, 0), (3, 0)]"
    and f: "flake_polyline 0 = [(0, 0), (3, 0), (1.5, - 3 * sqrt 3 / 2), (0, 0)]"
    by (simp_all add: koch_polyline_def flake_polyline_def)
  have h: "(0::int) \<le> 0" by simp
  from generations_refine [OF h]
  have a: "\<And>i. i < length (koch_polyline 0) \<Longrightarrow>
             koch_polyline (0 + 1) ! (4 * i) = koch_polyline 0 ! i"
    and b: "\<And>i. i < length (flake_polyline 0) \<Longrightarrow>
             flake_polyline (0 + 1) ! (4 * i) = flake_polyline 0 ! i"
    by blast+
  have "koch_polyline (0 + 1) ! (4 * 1) = koch_polyline 0 ! 1"
    by (rule a) (simp add: k)
  moreover have "flake_polyline (0 + 1) ! (4 * 2) = flake_polyline 0 ! 2"
    by (rule b) (simp add: f)
  ultimately show ?thesis
    by (simp add: k f)
qed

end
